theory Spec2Isabelle
  imports Complex_Main
begin

section \<open>The dynamic check runner (scripts/node/dynamic\_check.py)\<close>

text \<open>
  The runner fetches check definitions over HTTP, stores each script under a hash-named
  file with a \<open>current.sh\<close> symlink beside it, runs the link as a child process and
  writes one metric file per check plus a status file. Everything the Python code does to
  the outside (file system, network, child processes, clock) is explicit here: the
  outside world is a record of oracles, the file system is a map from paths to nodes, and
  every attempted effect is appended to an event list.
\<close>

subsection \<open>Python values\<close>

text \<open>
  What \<open>json.loads\<close> returns. A dictionary is an association list read with
  \<open>map_of\<close> (keys taken as distinct, as in a parsed object). Floats enter only through
  their truth value, so a real number stands for them.
\<close>

datatype pyval =
    PNone
  | PBool bool
  | PInt int
  | PFloat real
  | PStr string
  | PList "pyval list"
  | PDict "(string \<times> pyval) list"

text \<open>Python's truth value of an object, as used by \<open>x or {}\<close>.\<close>

fun truthy :: "pyval \<Rightarrow> bool" where
  "truthy PNone = False"
| "truthy (PBool b) = b"
| "truthy (PInt i) = (i \<noteq> 0)"
| "truthy (PFloat x) = (x \<noteq> 0)"
| "truthy (PStr s) = (s \<noteq> [])"
| "truthy (PList xs) = (xs \<noteq> [])"
| "truthy (PDict kvs) = (kvs \<noteq> [])"

text \<open>\<open>d.get(key, default)\<close> on an object; \<open>None\<close> of the option is the
  \<open>AttributeError\<close> raised when the object is not a dictionary.\<close>

fun py_get :: "pyval \<Rightarrow> string \<Rightarrow> pyval \<Rightarrow> pyval option" where
  "py_get (PDict kvs) k d = Some (case map_of kvs k of None \<Rightarrow> d | Some v \<Rightarrow> v)"
| "py_get _ k d = None"

text \<open>\<open>for item in data\<close>: the items a value yields, \<open>None\<close> when it is not
  iterable (\<open>TypeError\<close>). A dictionary yields its keys, a string its characters.\<close>

fun py_iter :: "pyval \<Rightarrow> pyval list option" where
  "py_iter (PList xs) = Some xs"
| "py_iter (PDict kvs) = Some (map (\<lambda>kv. PStr (fst kv)) kvs)"
| "py_iter (PStr s) = Some (map (\<lambda>c. PStr [c]) s)"
| "py_iter _ = None"

text \<open>\<open>v[:8]\<close> is defined on strings and lists; on every other value of this type the
  subscript raises.\<close>

fun sliceable :: "pyval \<Rightarrow> bool" where
  "sliceable (PStr s) = True"
| "sliceable (PList xs) = True"
| "sliceable _ = False"

subsection \<open>Data classes\<close>

text \<open>The data classes annotate their fields (\<open>str\<close>, \<open>dict\<close>) but nothing checks
  them: a \<open>CheckInfo\<close> holds whatever the payload held.\<close>

record CheckInfo =
  name :: pyval
  script_content :: pyval
  script_hash :: pyval
  config :: pyval

record CheckResult =
  result_name :: pyval
  success :: bool
  result_output :: string
  error :: "string option"

text \<open>The fields of \<open>DynamicCheckRunner\<close> that \<open>run\<close> reads.\<close>

record runner =
  config_server_url :: string
  hostname :: string
  textfile_dir :: string
  check_scripts_dir :: string

subsection \<open>Exceptions, the file system and the outside world\<close>

text \<open>An exception carries its message (\<open>str(e)\<close>).\<close>

datatype py_exc =
    OSError string
  | TypeError string
  | TimeoutExpired
  | OtherException string

type_synonym path = string

datatype node = File string bool | Symlink path | Dir

type_synonym fsmap = "path \<Rightarrow> node option"

datatype fsop =
    Mkdir path
  | WriteText path string
  | Chmod path
  | Unlink path
  | SymlinkTo path path
  | Rename path path

datatype proc_outcome =
    Completed int string string
  | TimedOut
  | SpawnRaised string

datatype fetch_error = URLError | JSONDecodeError | UnexpectedError

datatype event =
    Fs fsop
  | FsFailed fsop
  | HttpGet string
  | Spawn "string list" string
  | ReadClock

text \<open>
  The outside world. Every oracle takes the number of effects attempted so far, so the
  same operation may fail once and succeed later.
  \<^item> \<open>fs_fails t op\<close>: the message of the \<open>OSError\<close> the operating system raises for
    \<open>op\<close> (permissions, no space), if it does;
  \<^item> \<open>http_json t url\<close>: \<open>urlopen\<close>, \<open>read\<close>, \<open>decode\<close> and \<open>json.loads\<close>
    together, with the three \<open>except\<close> clauses of the fetcher as the errors;
  \<^item> \<open>subprocess_run t argv stdin\<close>: \<open>subprocess.run(argv, input=stdin,
    capture_output=True, text=True, timeout=30)\<close>;
  \<^item> \<open>time_time t\<close>: \<open>time.time()\<close>;
  \<^item> \<open>json_dumps\<close> and \<open>py_str\<close>: \<open>json.dumps\<close> with its default options and
    \<open>str()\<close> of a value that is not a string.

  What a child does to the file system is not part of the model, and the tests
  \<open>exists()\<close> and \<open>is_symlink()\<close> are taken not to raise. Logging is left out.
\<close>

record env =
  fs_fails :: "nat \<Rightarrow> fsop \<Rightarrow> string option"
  http_json :: "nat \<Rightarrow> string \<Rightarrow> fetch_error + pyval"
  subprocess_run :: "nat \<Rightarrow> string list \<Rightarrow> string \<Rightarrow> proc_outcome"
  time_time :: "nat \<Rightarrow> real"
  json_dumps :: "pyval \<Rightarrow> string"
  py_str :: "pyval \<Rightarrow> string"

record world =
  nodes :: fsmap
  events :: "event list"

type_synonym 'a io = "world \<Rightarrow> (py_exc + 'a) \<times> world"

text \<open>Sequencing: an exception of the first action ends the sequence, keeping the
  effects made so far.\<close>

definition bind_io :: "'a io \<Rightarrow> ('a \<Rightarrow> 'b io) \<Rightarrow> 'b io" where
  "bind_io m f w = (case m w of (Inl x, w1) \<Rightarrow> (Inl x, w1) | (Inr a, w1) \<Rightarrow> f a w1)"

definition return_io :: "'a \<Rightarrow> 'a io" where
  "return_io a w = (Inr a, w)"

definition raise_io :: "py_exc \<Rightarrow> 'a io" where
  "raise_io x w = (Inl x, w)"

text \<open>
  Symbolic links are followed at most 40 deep, as Linux does before it gives
  \<open>ELOOP\<close>. A link's target is a path of the same name space (the runner's
  directories are absolute).
\<close>

fun resolve :: "nat \<Rightarrow> fsmap \<Rightarrow> path \<Rightarrow> path option" where
  "resolve 0 ns p = (case ns p of Some (Symlink t) \<Rightarrow> None | _ \<Rightarrow> Some p)"
| "resolve (Suc k) ns p = (case ns p of Some (Symlink t) \<Rightarrow> resolve k ns t | _ \<Rightarrow> Some p)"

text \<open>\<open>Path.is_symlink()\<close> looks at the entry itself; \<open>Path.exists()\<close> and
  \<open>Path.is_dir()\<close> follow links and answer \<open>False\<close> for a dangling or looping one.\<close>

definition is_symlink :: "fsmap \<Rightarrow> path \<Rightarrow> bool" where
  "is_symlink ns p = (case ns p of Some (Symlink t) \<Rightarrow> True | _ \<Rightarrow> False)"

definition path_exists :: "fsmap \<Rightarrow> path \<Rightarrow> bool" where
  "path_exists ns p = (case resolve 40 ns p of None \<Rightarrow> False | Some q \<Rightarrow> ns q \<noteq> None)"

definition is_dir :: "fsmap \<Rightarrow> path \<Rightarrow> bool" where
  "is_dir ns p = (case resolve 40 ns p of None \<Rightarrow> False | Some q \<Rightarrow> ns q = Some Dir)"

text \<open>
  What each operation does to the file system when the operating system lets it
  through; \<open>Inl\<close> is the \<open>OSError\<close> it raises on the state it finds. Directory
  containment is not tracked: an entry is created whether or not its parent exists.
  \<^item> \<open>Mkdir\<close> is \<open>mkdir(parents=True, exist_ok=True)\<close>;
  \<^item> \<open>WriteText\<close> and \<open>Chmod\<close> (mode \<open>0o755\<close>: the executable flag) follow links;
  \<^item> \<open>Unlink\<close>, \<open>SymlinkTo\<close> and \<open>Rename\<close> act on the entry itself.
\<close>

fun fs_apply :: "fsop \<Rightarrow> fsmap \<Rightarrow> string + fsmap" where
  "fs_apply (Mkdir p) ns =
     (case ns p of
        None \<Rightarrow> Inr (ns(p \<mapsto> Dir))
      | Some n \<Rightarrow> if is_dir ns p then Inr ns else Inl ''FileExistsError'')"
| "fs_apply (WriteText p s) ns =
     (case resolve 40 ns p of
        None \<Rightarrow> Inl ''ELOOP''
      | Some q \<Rightarrow>
          (case ns q of
             None \<Rightarrow> Inr (ns(q \<mapsto> File s False))
           | Some (File c x) \<Rightarrow> Inr (ns(q \<mapsto> File s x))
           | Some n \<Rightarrow> Inl ''IsADirectoryError''))"
| "fs_apply (Chmod p) ns =
     (case resolve 40 ns p of
        None \<Rightarrow> Inl ''ELOOP''
      | Some q \<Rightarrow>
          (case ns q of
             None \<Rightarrow> Inl ''FileNotFoundError''
           | Some (File c x) \<Rightarrow> Inr (ns(q \<mapsto> File c True))
           | Some n \<Rightarrow> Inr ns))"
| "fs_apply (Unlink p) ns =
     (case ns p of
        None \<Rightarrow> Inl ''FileNotFoundError''
      | Some Dir \<Rightarrow> Inl ''IsADirectoryError''
      | Some n \<Rightarrow> Inr (ns(p := None)))"
| "fs_apply (SymlinkTo p t) ns =
     (case ns p of
        None \<Rightarrow> Inr (ns(p \<mapsto> Symlink t))
      | Some n \<Rightarrow> Inl ''FileExistsError'')"
| "fs_apply (Rename p q) ns =
     (case ns p of
        None \<Rightarrow> Inl ''FileNotFoundError''
      | Some n \<Rightarrow>
          if p = q then Inr ns
          else if ns q = Some Dir \<and> n \<noteq> Dir then Inl ''IsADirectoryError''
          else if n = Dir \<and> ns q \<noteq> None \<and> ns q \<noteq> Some Dir then Inl ''NotADirectoryError''
          else Inr ((ns(p := None))(q \<mapsto> n)))"

text \<open>One file-system call of the program: the attempt is logged, and it raises when
  the outside world refuses it or the state does.\<close>

definition fs_do :: "env \<Rightarrow> fsop \<Rightarrow> unit io" where
  "fs_do e op w =
     (case fs_fails e (length (events w)) op of
        Some msg \<Rightarrow> (Inl (OSError msg), w\<lparr>events := events w @ [FsFailed op]\<rparr>)
      | None \<Rightarrow>
          (case fs_apply op (nodes w) of
             Inl msg \<Rightarrow> (Inl (OSError msg), w\<lparr>events := events w @ [FsFailed op]\<rparr>)
           | Inr ns \<Rightarrow> (Inr (), w\<lparr>nodes := ns, events := events w @ [Fs op]\<rparr>)))"

text \<open>The file-system states an event list leads through, from a given state: one
  state after each successful operation.\<close>

fun fs_states :: "fsmap \<Rightarrow> event list \<Rightarrow> fsmap list" where
  "fs_states ns [] = []"
| "fs_states ns (Fs op # evs) =
     (case fs_apply op ns of Inr ns' \<Rightarrow> ns' # fs_states ns' evs | Inl msg \<Rightarrow> fs_states ns evs)"
| "fs_states ns (ev # evs) = fs_states ns evs"

subsection \<open>Paths and formatting\<close>

text \<open>\<open>dir / name\<close> of \<open>pathlib\<close> for a relative, non-empty segment; paths are
  compared as strings.\<close>

definition path_join :: "path \<Rightarrow> string \<Rightarrow> path" where
  "path_join d n = d @ ''/'' @ n"

text \<open>\<open>{v}\<close> inside an f-string.\<close>

definition py_format :: "env \<Rightarrow> pyval \<Rightarrow> string" where
  "py_format e v = (case v of PStr s \<Rightarrow> s | _ \<Rightarrow> py_str e v)"

subsection \<open>The script cache: \_save\_check\_script\<close>

definition script_dir_of :: "runner \<Rightarrow> string \<Rightarrow> path" where
  "script_dir_of r n = path_join (check_scripts_dir r) n"

definition script_file_of :: "env \<Rightarrow> runner \<Rightarrow> string \<Rightarrow> pyval \<Rightarrow> path" where
  "script_file_of e r n h = path_join (script_dir_of r n) (n @ ''_'' @ py_format e h @ ''.sh'')"

definition current_link_of :: "runner \<Rightarrow> string \<Rightarrow> path" where
  "current_link_of r n = path_join (script_dir_of r n) ''current.sh''"

text \<open>
  Lines 250 to 256: the body is written only when no file of that name exists. The log
  line of that branch evaluates \<open>check.script_hash[:8]\<close>, and \<open>write_text\<close> checks
  that the content is a string before it opens the file.
\<close>

definition write_script_if_new :: "env \<Rightarrow> path \<Rightarrow> CheckInfo \<Rightarrow> unit io" where
  "write_script_if_new e script_file c w =
     (if path_exists (nodes w) script_file then return_io () w
      else if \<not> sliceable (script_hash c) then raise_io (TypeError ''not subscriptable'') w
      else (case script_content c of
              PStr body \<Rightarrow>
                bind_io (fs_do e (WriteText script_file body)) (\<lambda>_.
                fs_do e (Chmod script_file)) w
            | _ \<Rightarrow> raise_io (TypeError ''data must be str'') w))"

text \<open>
  Lines 258 to 263: the link is removed if it is there (a link, or any other entry that
  exists) and then made anew.
\<close>

definition update_current_link :: "env \<Rightarrow> path \<Rightarrow> path \<Rightarrow> unit io" where
  "update_current_link e current_link script_file =
     bind_io (\<lambda>w.
       if is_symlink (nodes w) current_link then fs_do e (Unlink current_link) w
       else if path_exists (nodes w) current_link then fs_do e (Unlink current_link) w
       else return_io () w) (\<lambda>_.
     fs_do e (SymlinkTo current_link script_file))"

text \<open>\<open>self.check_scripts_dir / check.name\<close> raises \<open>TypeError\<close> when the name is
  not a string.\<close>

definition save_check_script :: "env \<Rightarrow> runner \<Rightarrow> CheckInfo \<Rightarrow> path io" where
  "save_check_script e r c =
     (case name c of
        PStr n \<Rightarrow>
          (let script_dir = script_dir_of r n;
               script_file = script_file_of e r n (script_hash c);
               current_link = current_link_of r n
           in bind_io (fs_do e (Mkdir script_dir)) (\<lambda>_.
              bind_io (write_script_if_new e script_file c) (\<lambda>_.
              bind_io (update_current_link e current_link script_file) (\<lambda>_.
              return_io current_link))))
      | _ \<Rightarrow> raise_io (TypeError ''unsupported operand type(s) for /''))"

subsection \<open>Numbers in f-strings\<close>

text \<open>\<open>str(n)\<close> of an integer: its decimal digits, with a minus sign when negative.\<close>

function str_nat :: "nat \<Rightarrow> string" where
  "str_nat n = (if n < 10 then [''0123456789'' ! n] else str_nat (n div 10) @ [''0123456789'' ! (n mod 10)])"
  by pat_completeness auto
termination
  by (relation "measure (\<lambda>n. n)") auto

declare str_nat.simps [simp del]

definition str_int :: "int \<Rightarrow> string" where
  "str_int i = (if i < 0 then ''-'' @ str_nat (nat (- i)) else str_nat (nat i))"

text \<open>\<open>int(x)\<close> of a float truncates towards zero.\<close>

definition py_int :: "real \<Rightarrow> int" where
  "py_int x = (if 0 \<le> x then \<lfloor>x\<rfloor> else \<lceil>x\<rceil>)"

definition newline :: string where
  "newline = [CHR 0x0A]"

definition dquote :: string where
  "dquote = [CHR 0x22]"

subsection \<open>Metric texts: \_generate\_error\_metric and \_write\_status\_metrics\<close>

text \<open>The f-string of \<open>_generate_error_metric\<close>, from the name as the f-string
  prints it.\<close>

definition error_metric_text :: "string \<Rightarrow> string" where
  "error_metric_text n =
     ''# HELP aami_check_error Check execution error (1=error)'' @ newline @
     ''# TYPE aami_check_error gauge'' @ newline @
     ''aami_check_error{check='' @ dquote @ n @ dquote @ ''} 1'' @ newline"

definition generate_error_metric :: "env \<Rightarrow> pyval \<Rightarrow> string" where
  "generate_error_metric e check_name = error_metric_text (py_format e check_name)"

text \<open>The text of the status file, from the six numbers the f-string holds.\<close>

definition status_text :: "int \<Rightarrow> int \<Rightarrow> int \<Rightarrow> int \<Rightarrow> int \<Rightarrow> int \<Rightarrow> string" where
  "status_text status_value timestamp duration checks_total checks_success checks_failed =
     ''# HELP aami_check_fetch_status Check fetch status (1=success, 0=failed)'' @ newline @
     ''# TYPE aami_check_fetch_status gauge'' @ newline @
     ''aami_check_fetch_status '' @ str_int status_value @ newline @
     newline @
     ''# HELP aami_check_fetch_timestamp_seconds Last check fetch timestamp'' @ newline @
     ''# TYPE aami_check_fetch_timestamp_seconds gauge'' @ newline @
     ''aami_check_fetch_timestamp_seconds '' @ str_int timestamp @ newline @
     newline @
     ''# HELP aami_check_execution_duration_seconds Check execution duration'' @ newline @
     ''# TYPE aami_check_execution_duration_seconds gauge'' @ newline @
     ''aami_check_execution_duration_seconds '' @ str_int duration @ newline @
     newline @
     ''# HELP aami_checks_total Total number of checks configured'' @ newline @
     ''# TYPE aami_checks_total gauge'' @ newline @
     ''aami_checks_total '' @ str_int checks_total @ newline @
     newline @
     ''# HELP aami_checks_success Number of successful checks'' @ newline @
     ''# TYPE aami_checks_success gauge'' @ newline @
     ''aami_checks_success '' @ str_int checks_success @ newline @
     newline @
     ''# HELP aami_checks_failed Number of failed checks'' @ newline @
     ''# TYPE aami_checks_failed gauge'' @ newline @
     ''aami_checks_failed '' @ str_int checks_failed @ newline"

text \<open>\<open>time.time()\<close>: a reading of the clock.\<close>

definition now :: "env \<Rightarrow> world \<Rightarrow> real \<times> world" where
  "now e w = (time_time e (length (events w)), w\<lparr>events := events w @ [ReadClock]\<rparr>)"

text \<open>\<open>tmp.write_text(s); tmp.rename(final)\<close>: how every metric file is written.\<close>

definition publish :: "env \<Rightarrow> path \<Rightarrow> path \<Rightarrow> string \<Rightarrow> unit io" where
  "publish e tmp final s = bind_io (fs_do e (WriteText tmp s)) (\<lambda>_. fs_do e (Rename tmp final))"

definition status_file_of :: "runner \<Rightarrow> path" where
  "status_file_of r = path_join (textfile_dir r) ''aami_status.prom''"

definition status_temp_of :: "runner \<Rightarrow> path" where
  "status_temp_of r = path_join (textfile_dir r) ''aami_status.prom.tmp''"

definition write_status_metrics ::
    "env \<Rightarrow> runner \<Rightarrow> bool \<Rightarrow> int \<Rightarrow> int \<Rightarrow> int \<Rightarrow> int \<Rightarrow> unit io" where
  "write_status_metrics e r ok checks_total checks_success checks_failed duration w =
     (case now e w of (t, w1) \<Rightarrow>
        (let timestamp = py_int t;
             status_value = (if ok then 1 else 0);
             metrics = status_text status_value timestamp duration
                         checks_total checks_success checks_failed
         in publish e (status_temp_of r) (status_file_of r) metrics w1))"

subsection \<open>Running one check: \_execute\_check\<close>

definition run_child :: "env \<Rightarrow> string list \<Rightarrow> string \<Rightarrow> world \<Rightarrow> proc_outcome \<times> world" where
  "run_child e argv inp w =
     (subprocess_run e (length (events w)) argv inp, w\<lparr>events := events w @ [Spawn argv inp]\<rparr>)"

fun exc_message :: "py_exc \<Rightarrow> string" where
  "exc_message (OSError m) = m"
| "exc_message (TypeError m) = m"
| "exc_message TimeoutExpired = ''timed out''"
| "exc_message (OtherException m) = m"

definition output_file_of :: "env \<Rightarrow> runner \<Rightarrow> pyval \<Rightarrow> path" where
  "output_file_of e r check_name = path_join (textfile_dir r) (py_format e check_name @ ''.prom.tmp'')"

definition final_file_of :: "env \<Rightarrow> runner \<Rightarrow> pyval \<Rightarrow> path" where
  "final_file_of e r check_name = path_join (textfile_dir r) (py_format e check_name @ ''.prom'')"

text \<open>The body of the \<open>try\<close>: the child is started with the script's path as its whole
  argument vector and the serialised configuration as its input.\<close>

definition execute_check_try :: "env \<Rightarrow> runner \<Rightarrow> pyval \<Rightarrow> path \<Rightarrow> pyval \<Rightarrow> CheckResult io" where
  "execute_check_try e r check_name script_path cfg w =
     (let output_file = output_file_of e r check_name;
          final_file = final_file_of e r check_name;
          config_json = json_dumps e cfg
      in case run_child e [script_path] config_json w of (outcome, w1) \<Rightarrow>
           (case outcome of
              Completed returncode out err \<Rightarrow>
                if returncode = 0 then
                  bind_io (publish e output_file final_file out) (\<lambda>_.
                  return_io \<lparr>result_name = check_name, success = True,
                             result_output = out, error = None\<rparr>) w1
                else
                  bind_io (publish e output_file final_file (generate_error_metric e check_name)) (\<lambda>_.
                  return_io \<lparr>result_name = check_name, success = False,
                             result_output = out, error = Some err\<rparr>) w1
            | TimedOut \<Rightarrow> raise_io TimeoutExpired w1
            | SpawnRaised msg \<Rightarrow> raise_io (OtherException msg) w1))"

text \<open>The two \<open>except\<close> clauses write the error metric outside the \<open>try\<close>: an
  exception there leaves the function.\<close>

definition execute_check :: "env \<Rightarrow> runner \<Rightarrow> pyval \<Rightarrow> path \<Rightarrow> pyval \<Rightarrow> CheckResult io" where
  "execute_check e r check_name script_path cfg w =
     (let output_file = output_file_of e r check_name;
          final_file = final_file_of e r check_name
      in case execute_check_try e r check_name script_path cfg w of
           (Inr res, w1) \<Rightarrow> (Inr res, w1)
         | (Inl TimeoutExpired, w1) \<Rightarrow>
             bind_io (publish e output_file final_file (generate_error_metric e check_name)) (\<lambda>_.
             return_io \<lparr>result_name = check_name, success = False,
                        result_output = [], error = Some ''Timeout''\<rparr>) w1
         | (Inl x, w1) \<Rightarrow>
             bind_io (publish e output_file final_file (generate_error_metric e check_name)) (\<lambda>_.
             return_io \<lparr>result_name = check_name, success = False,
                        result_output = [], error = Some (exc_message x)\<rparr>) w1)"

subsection \<open>Fetching: \_fetch\_effective\_checks\<close>

definition rstrip_slash :: "string \<Rightarrow> string" where
  "rstrip_slash s = rev (dropWhile (\<lambda>c. c = CHR ''/'') (rev s))"

definition fetch_url :: "runner \<Rightarrow> string" where
  "fetch_url r = rstrip_slash (config_server_url r) @ ''/api/v1/checks/target/hostname/'' @ hostname r"

text \<open>One record of the payload; \<open>None\<close> is the \<open>AttributeError\<close> of \<open>item.get\<close>
  on a value that is no dictionary.\<close>

definition make_check :: "pyval \<Rightarrow> CheckInfo option" where
  "make_check item =
     (case py_get item ''name'' (PStr []) of None \<Rightarrow> None | Some n \<Rightarrow>
      case py_get item ''script_content'' (PStr []) of None \<Rightarrow> None | Some body \<Rightarrow>
      case py_get item ''script_hash'' (PStr []) of None \<Rightarrow> None | Some h \<Rightarrow>
      case py_get item ''config'' PNone of None \<Rightarrow> None | Some cfg \<Rightarrow>
        Some \<lparr>name = n, script_content = body, script_hash = h,
              config = (if truthy cfg then cfg else PDict [])\<rparr>)"

fun collect_checks :: "pyval list \<Rightarrow> CheckInfo list \<Rightarrow> CheckInfo list option" where
  "collect_checks [] checks = Some checks"
| "collect_checks (item # items) checks =
     (case make_check item of
        None \<Rightarrow> None
      | Some check \<Rightarrow> collect_checks items (checks @ [check]))"

text \<open>Every exception inside the \<open>try\<close> ends in \<open>return None\<close>.\<close>

definition fetch_effective_checks :: "env \<Rightarrow> runner \<Rightarrow> world \<Rightarrow> CheckInfo list option \<times> world" where
  "fetch_effective_checks e r w =
     (let url = fetch_url r;
          w1 = w\<lparr>events := events w @ [HttpGet url]\<rparr>
      in case http_json e (length (events w)) url of
           Inl err \<Rightarrow> (None, w1)
         | Inr data \<Rightarrow>
             (case py_iter data of
                None \<Rightarrow> (None, w1)
              | Some items \<Rightarrow> (collect_checks items [], w1)))"

subsection \<open>The run\<close>

text \<open>The \<open>for\<close> loop of \<open>run\<close> with its two counters. The list of results is not in
  the source (each result is dropped after it is counted); it is kept here so that
  theorems can speak about the results.\<close>

fun run_checks ::
    "env \<Rightarrow> runner \<Rightarrow> CheckInfo list \<Rightarrow> int \<Rightarrow> int \<Rightarrow> CheckResult list \<Rightarrow>
     (int \<times> int \<times> CheckResult list) io" where
  "run_checks e r [] checks_success checks_failed results w =
     (Inr (checks_success, checks_failed, results), w)"
| "run_checks e r (check # checks) checks_success checks_failed results w =
     (case save_check_script e r check w of
        (Inl x, w1) \<Rightarrow> (Inl x, w1)
      | (Inr script_path, w1) \<Rightarrow>
          (case execute_check e r (name check) script_path (config check) w1 of
             (Inl x, w2) \<Rightarrow> (Inl x, w2)
           | (Inr result, w2) \<Rightarrow>
               if success result
               then run_checks e r checks (checks_success + 1) checks_failed (results @ [result]) w2
               else run_checks e r checks checks_success (checks_failed + 1) (results @ [result]) w2))"

definition run :: "env \<Rightarrow> runner \<Rightarrow> int io" where
  "run e r w =
     (if config_server_url r = [] then
        bind_io (write_status_metrics e r False 0 0 0 0) (\<lambda>_. return_io 1) w
      else
        (case now e w of (start_time, w1) \<Rightarrow>
         case fetch_effective_checks e r w1 of
           (None, w2) \<Rightarrow>
             (case now e w2 of (t, w3) \<Rightarrow>
                bind_io (write_status_metrics e r False 0 0 0 (py_int (t - start_time)))
                  (\<lambda>_. return_io 1) w3)
         | (Some checks, w2) \<Rightarrow>
             (case run_checks e r checks 0 0 [] w2 of
                (Inl x, w3) \<Rightarrow> (Inl x, w3)
              | (Inr (checks_success, checks_failed, results), w3) \<Rightarrow>
                  (case now e w3 of (t, w4) \<Rightarrow>
                     bind_io (write_status_metrics e r True (int (length checks))
                                checks_success checks_failed (py_int (t - start_time)))
                       (\<lambda>_. return_io 0) w4))))"

text \<open>\<open>sys.exit(runner.run())\<close>: the value \<open>run\<close> returns, or 1 when an exception
  leaves \<open>run\<close> and the interpreter ends with a traceback.\<close>

definition exit_status :: "py_exc + int \<Rightarrow> int" where
  "exit_status res = (case res of Inl x \<Rightarrow> 1 | Inr rc \<Rightarrow> rc)"

subsection \<open>Configuration: \_load\_config\<close>

datatype config_file = NoFile | Unreadable | FileLines "string list"





subsection \<open>Traces\<close>

text \<open>The file-system state an event list ends in, and the relation between two worlds
  of which the second is reached from the first through exactly these events.\<close>

definition fs_final :: "fsmap \<Rightarrow> event list \<Rightarrow> fsmap" where
  "fs_final ns evs = last (ns # fs_states ns evs)"

definition reaches :: "world \<Rightarrow> event list \<Rightarrow> world \<Rightarrow> bool" where
  "reaches w evs w' = (events w' = events w @ evs \<and> nodes w' = fs_final (nodes w) evs)"

subsection \<open>A concrete outside world\<close>

text \<open>
  A server that answers with three checks \<open>A\<close>, \<open>B\<close> and \<open>C\<close>; the script of \<open>A\<close>
  prints \<open>up 1\<close> and exits 0, that of \<open>B\<close> exits 1, that of \<open>C\<close> runs into the
  timeout. No file-system call fails, and the clock stands at 100.
\<close>

definition demo_payload :: pyval where
  "demo_payload = PList
     [PDict [(''name'', PStr ''A''), (''script_content'', PStr ''echo up 1''),
             (''script_hash'', PStr ''h1''), (''config'', PDict [(''warn'', PInt 80)])],
      PDict [(''name'', PStr ''B''), (''script_content'', PStr ''exit 1''),
             (''script_hash'', PStr ''h1'')],
      PDict [(''name'', PStr ''C''), (''script_content'', PStr ''sleep 60''),
             (''script_hash'', PStr ''h1''), (''config'', PNone)]]"

definition demo_env :: env where
  "demo_env = \<lparr>
     fs_fails = (\<lambda>t op. None),
     http_json = (\<lambda>t url. Inr demo_payload),
     subprocess_run = (\<lambda>t argv inp.
       if argv = [''/c/A/current.sh''] then Completed 0 ''up 1'' []
       else if argv = [''/c/B/current.sh''] then Completed 1 ''junk'' ''boom''
       else TimedOut),
     time_time = (\<lambda>t. 100),
     json_dumps = (\<lambda>v. if v = PDict [] then ''{}'' else ''{...}''),
     py_str = (\<lambda>v. ''None'')\<rparr>"

definition demo_runner :: runner where
  "demo_runner = \<lparr>config_server_url = ''http://cs/'', hostname = ''node1'',
     textfile_dir = ''/t'', check_scripts_dir = ''/c''\<rparr>"

definition empty_world :: world where
  "empty_world = \<lparr>nodes = (\<lambda>p. None), events = []\<rparr>"

text \<open>A check \<open>A\<close> whose script has changed (hash \<open>h2\<close>), and a world in which the
  version \<open>h1\<close> is stored and current.\<close>

definition check_A2 :: CheckInfo where
  "check_A2 = \<lparr>name = PStr ''A'', script_content = PStr ''echo up 2'',
     script_hash = PStr ''h2'', config = PDict []\<rparr>"

definition world_A1 :: world where
  "world_A1 = \<lparr>nodes = ((\<lambda>p. None)(''/c/A'' \<mapsto> Dir, ''/c/A/A_h1.sh'' \<mapsto> File ''echo up 1'' True,
       ''/c/A/current.sh'' \<mapsto> Symlink ''/c/A/A_h1.sh'')), events = []\<rparr>"

text \<open>One step of link resolution: \<open>p\<close> is a link to \<open>t\<close>.\<close>

definition hop :: "fsmap \<Rightarrow> path \<Rightarrow> path \<Rightarrow> bool" where
  "hop ns p t = (ns p = Some (Symlink t))"

text \<open>The check \<open>A\<close> as \<open>demo_payload\<close> has it.\<close>

definition check_A1 :: CheckInfo where
  "check_A1 = \<lparr>name = PStr ''A'', script_content = PStr ''echo up 1'',
     script_hash = PStr ''h1'', config = PDict [(''warn'', PInt 80)]\<rparr>"


text \<open>A payload with a record that has no field at all, and one whose \<open>config\<close> is
  \<open>null\<close>.\<close>

definition sparse_payload :: pyval where
  "sparse_payload = PList
     [PDict [],
      PDict [(''name'', PStr ''x''), (''script_hash'', PStr ''h''), (''config'', PNone)]]"

definition sparse_env :: env where
  "sparse_env = demo_env\<lparr>http_json := (\<lambda>t url. Inr sparse_payload)\<rparr>"



definition nospace_env :: env where
  "nospace_env = demo_env\<lparr>fs_fails := (\<lambda>t op.
     if op = WriteText ''/c/A/A_h1.sh'' ''echo up 1'' then Some ''No space left on device''
     else None)\<rparr>"

text \<open>The checks the fetcher makes of \<open>demo_payload\<close>, and the results of running them
  in \<open>demo_env\<close>.\<close>

definition demo_checks :: "CheckInfo list" where
  "demo_checks =
     [\<lparr>name = PStr ''A'', script_content = PStr ''echo up 1'', script_hash = PStr ''h1'',
       config = PDict [(''warn'', PInt 80)]\<rparr>,
      \<lparr>name = PStr ''B'', script_content = PStr ''exit 1'', script_hash = PStr ''h1'',
       config = PDict []\<rparr>,
      \<lparr>name = PStr ''C'', script_content = PStr ''sleep 60'', script_hash = PStr ''h1'',
       config = PDict []\<rparr>]"


subsection \<open>Reading the exposition format\<close>

text \<open>
  How a reader of the textfile directory finds a sample in a metric file: the text is cut
  at its newlines (\<open>text.split('\n')\<close>), the sample of a metric is the one line that
  starts with the metric's name and a space, and its value is the decimal number after
  the space.
\<close>

fun lines_of :: "string \<Rightarrow> string list" where
  "lines_of [] = [[]]"
| "lines_of (c # cs) =
     (if c = CHR 0x0A then [] # lines_of cs
      else (case lines_of cs of [] \<Rightarrow> [[c]] | l # ls \<Rightarrow> (c # l) # ls))"

definition digit_val :: "char \<Rightarrow> nat option" where
  "digit_val c = map_of (zip ''0123456789'' [0, 1, 2, 3, 4, 5, 6, 7, 8, 9]) c"

text \<open>The number a string of digits stands for, read from its last digit.\<close>

fun dec_rev :: "string \<Rightarrow> nat option" where
  "dec_rev [] = Some 0"
| "dec_rev (c # cs) =
     (case digit_val c of
        None \<Rightarrow> None
      | Some d \<Rightarrow> (case dec_rev cs of None \<Rightarrow> None | Some v \<Rightarrow> Some (10 * v + d)))"

definition parse_nat :: "string \<Rightarrow> nat option" where
  "parse_nat s = (if s = [] then None else dec_rev (rev s))"

definition parse_int :: "string \<Rightarrow> int option" where
  "parse_int s =
     (case s of
        [] \<Rightarrow> None
      | c # cs \<Rightarrow>
          if c = CHR ''-'' then map_option (\<lambda>v. - int v) (parse_nat cs)
          else map_option int (parse_nat s))"

definition sample_value :: "string \<Rightarrow> string \<Rightarrow> string option" where
  "sample_value text metric =
     (case filter (\<lambda>l. take (length metric + 1) l = metric @ '' '') (lines_of text) of
        [l] \<Rightarrow> Some (drop (length metric + 1) l)
      | _ \<Rightarrow> None)"

definition gauge :: "string \<Rightarrow> string \<Rightarrow> int option" where
  "gauge text metric = (case sample_value text metric of None \<Rightarrow> None | Some v \<Rightarrow> parse_int v)"

text \<open>Lines put together again, each closed by a newline.\<close>

definition unlines :: "string list \<Rightarrow> string" where
  "unlines ls = concat (map (\<lambda>l. l @ [CHR 0x0A]) ls)"



section \<open>Properties\<close>

subsection \<open>Sequencing and traces\<close>

lemma bind_io_Inr:
  "bind_io m f w = (Inr b, w') \<longleftrightarrow> (\<exists>a w1. m w = (Inr a, w1) \<and> f a w1 = (Inr b, w'))"
  by (auto simp: bind_io_def split: prod.splits sum.splits)


lemma fs_do_Inr:
  "fs_do e op w = (Inr u, w') \<longleftrightarrow>
     fs_fails e (length (events w)) op = None \<and>
     (\<exists>ns. fs_apply op (nodes w) = Inr ns \<and> w' = w\<lparr>nodes := ns, events := events w @ [Fs op]\<rparr>)"
  by (auto simp: fs_do_def split: option.splits sum.splits)

lemma fs_do_Inl:
  "fs_do e op w = (Inl x, w') \<Longrightarrow> w' = w\<lparr>events := events w @ [FsFailed op]\<rparr>"
  by (auto simp: fs_do_def split: option.splits sum.splits)

lemma fs_states_append:
  "fs_states ns (xs @ ys) = fs_states ns xs @ fs_states (fs_final ns xs) ys"
proof (induction ns xs rule: fs_states.induct)
  case (1 ns)
  then show ?case by (simp add: fs_final_def)
next
  case (2 ns op evs)
  then show ?case by (simp add: fs_final_def split: sum.splits)
qed (simp_all add: fs_final_def)

lemma fs_final_append: "fs_final ns (xs @ ys) = fs_final (fs_final ns xs) ys"
  by (simp add: fs_final_def fs_states_append)

lemma fs_final_Nil: "fs_final ns [] = ns"
  by (simp add: fs_final_def)

lemma fs_final_Fs:
  "fs_final ns [Fs op] = (case fs_apply op ns of Inr ns' \<Rightarrow> ns' | Inl m \<Rightarrow> ns)"
  by (simp add: fs_final_def split: sum.splits)

lemma fs_final_FsFailed: "fs_final ns [FsFailed op] = ns"
  by (simp add: fs_final_def)

lemma reaches_refl: "reaches w [] w"
  by (simp add: reaches_def fs_final_Nil)

lemma reaches_trans: "reaches w a w1 \<Longrightarrow> reaches w1 b w2 \<Longrightarrow> reaches w (a @ b) w2"
  by (simp add: reaches_def fs_final_append)

lemma fs_do_reaches_Inr: "fs_do e op w = (Inr u, w') \<Longrightarrow> reaches w [Fs op] w'"
  by (auto simp: fs_do_Inr reaches_def fs_final_Fs)

lemma fs_do_reaches_Inl: "fs_do e op w = (Inl x, w') \<Longrightarrow> reaches w [FsFailed op] w'"
  by (auto dest!: fs_do_Inl simp: reaches_def fs_final_FsFailed)

subsection \<open>Links and existence\<close>

lemma resolve_plain: "\<not> is_symlink ns p \<Longrightarrow> resolve k ns p = Some p"
  by (cases k) (auto simp: is_symlink_def split: option.splits node.splits)

lemma path_exists_plain: "\<not> is_symlink ns p \<Longrightarrow> path_exists ns p = (ns p \<noteq> None)"
  by (simp add: path_exists_def resolve_plain)

lemma is_symlink_None: "ns p = None \<Longrightarrow> \<not> is_symlink ns p"
  by (simp add: is_symlink_def)

lemma path_join_neq_self: "path_join d n \<noteq> d"
  by (simp add: path_join_def)

lemma current_link_neq_dir: "current_link_of r n \<noteq> script_dir_of r n"
  by (simp add: current_link_of_def path_join_neq_self)

lemma fs_apply_keeps:
  "fs_apply op ns = Inr ns' \<Longrightarrow> (\<forall>q. op \<noteq> Unlink q) \<Longrightarrow> (\<forall>a b. op \<noteq> Rename a b) \<Longrightarrow>
     ns p \<noteq> None \<Longrightarrow> ns' p \<noteq> None"
  by (cases op) (auto split: option.splits node.splits if_splits)

lemma fs_do_keeps:
  "fs_do e op w = (Inr u, w') \<Longrightarrow> (\<forall>q. op \<noteq> Unlink q) \<Longrightarrow> (\<forall>a b. op \<noteq> Rename a b) \<Longrightarrow>
     nodes w p \<noteq> None \<Longrightarrow> nodes w' p \<noteq> None"
  by (auto simp: fs_do_Inr dest: fs_apply_keeps)

subsection \<open>The steps of \_save\_check\_script\<close>

lemma update_current_link_Inr:
  assumes "update_current_link e cur f w = (Inr u, w')"
  shows "\<exists>pre. reaches w (pre @ [Fs (SymlinkTo cur f)]) w'
           \<and> fs_final (nodes w) pre cur = None
           \<and> pre = (if nodes w cur = None then [] else [Fs (Unlink cur)])
           \<and> nodes w' = (nodes w)(cur \<mapsto> Symlink f)"
proof -
  from assms obtain w1 where
    s1: "(if is_symlink (nodes w) cur then fs_do e (Unlink cur) w
          else if path_exists (nodes w) cur then fs_do e (Unlink cur) w
          else return_io () w) = (Inr (), w1)"
    and s2: "fs_do e (SymlinkTo cur f) w1 = (Inr u, w')"
    by (auto simp: update_current_link_def bind_io_Inr)
  from s2 have n1: "nodes w1 cur = None" and n': "nodes w' = (nodes w1)(cur \<mapsto> Symlink f)"
    and r2: "reaches w1 [Fs (SymlinkTo cur f)] w'"
    by (auto simp: fs_do_Inr reaches_def fs_final_Fs split: option.splits)
  show ?thesis
  proof (cases "nodes w cur = None")
    case True
    then have "w1 = w"
      using s1 by (simp add: is_symlink_None path_exists_plain return_io_def)
    with True r2 n' show ?thesis
      by (auto simp: fs_final_Nil)
  next
    case False
    then have "is_symlink (nodes w) cur \<or> path_exists (nodes w) cur"
      using path_exists_plain [of "nodes w" cur] by blast
    with s1 have d: "fs_do e (Unlink cur) w = (Inr (), w1)"
      by (auto split: if_splits)
    then have r1: "reaches w [Fs (Unlink cur)] w1" and n1': "nodes w1 = (nodes w)(cur := None)"
      by (auto simp: fs_do_reaches_Inr fs_do_Inr split: option.splits node.splits)
    from r1 r2 have "reaches w ([Fs (Unlink cur)] @ [Fs (SymlinkTo cur f)]) w'"
      by (rule reaches_trans)
    moreover from r1 n1 have "fs_final (nodes w) [Fs (Unlink cur)] cur = None"
      by (simp add: reaches_def)
    ultimately show ?thesis
      using False n' n1' by auto
  qed
qed

lemma write_script_if_new_Inr:
  assumes "write_script_if_new e f c w = (Inr u, w')"
  shows "(path_exists (nodes w) f \<and> w' = w) \<or>
         (\<not> path_exists (nodes w) f \<and>
          (\<exists>body w1. script_content c = PStr body \<and>
             fs_do e (WriteText f body) w = (Inr (), w1) \<and>
             fs_do e (Chmod f) w1 = (Inr (), w')))"
  using assms
  by (auto simp: write_script_if_new_def return_io_def raise_io_def bind_io_Inr
           split: if_splits pyval.splits)

lemma write_script_if_new_reaches:
  assumes "write_script_if_new e f c w = (Inr u, w')"
  shows "\<exists>evs. reaches w evs w'"
  using write_script_if_new_Inr [OF assms]
  by (blast intro: reaches_refl reaches_trans fs_do_reaches_Inr)

lemma write_script_if_new_keeps:
  assumes "write_script_if_new e f c w = (Inr u, w')" and "nodes w p \<noteq> None"
  shows "nodes w' p \<noteq> None"
proof -
  from write_script_if_new_Inr [OF assms(1)] show ?thesis
  proof
    assume "path_exists (nodes w) f \<and> w' = w"
    with assms(2) show ?thesis by simp
  next
    assume "\<not> path_exists (nodes w) f \<and>
          (\<exists>body w1. script_content c = PStr body \<and>
             fs_do e (WriteText f body) w = (Inr (), w1) \<and>
             fs_do e (Chmod f) w1 = (Inr (), w'))"
    then obtain body w1 where
          s1: "fs_do e (WriteText f body) w = (Inr (), w1)"
      and s2: "fs_do e (Chmod f) w1 = (Inr (), w')"
      by blast
    have "nodes w1 p \<noteq> None"
      using fs_do_keeps [OF s1 _ _ assms(2)] by simp
    then show ?thesis
      using fs_do_keeps [OF s2] by simp
  qed
qed

lemma save_check_script_Inr:
  assumes "save_check_script e r c w = (Inr p, w')" and "name c = PStr n"
  shows "\<exists>w1 w2. fs_do e (Mkdir (script_dir_of r n)) w = (Inr (), w1)
           \<and> write_script_if_new e (script_file_of e r n (script_hash c)) c w1 = (Inr (), w2)
           \<and> update_current_link e (current_link_of r n) (script_file_of e r n (script_hash c)) w2 = (Inr (), w')
           \<and> p = current_link_of r n"
  using assms by (auto simp: save_check_script_def Let_def bind_io_Inr return_io_def)

lemma save_check_script_name:
  "save_check_script e r c w = (Inr p, w') \<Longrightarrow> \<exists>n. name c = PStr n"
  by (auto simp: save_check_script_def raise_io_def split: pyval.splits)

subsection \<open>The pointer update\<close>

text \<open>
  Claim C1, as the code has it. Whenever \<open>_save_check_script\<close> returns, the last thing it
  did was to create the link \<open>current.sh\<close> to the hash-named file, in a state in which
  no entry stood at the link's path: an entry that stood there when the call began has been
  unlinked just before. On return the link exists and refers to the hash-named file, and
  the state reached is the one the logged events lead to. So the pointer is replaced by
  deleting and recreating it, and between the two steps it does not exist.
\<close>

theorem save_check_script_pointer_update:
  assumes "save_check_script e r c w = (Inr p, w')" and "name c = PStr n"
  shows "\<exists>pre. events w' = events w @ pre @
                   [Fs (SymlinkTo (current_link_of r n) (script_file_of e r n (script_hash c)))]
           \<and> fs_final (nodes w) pre (current_link_of r n) = None
           \<and> (nodes w (current_link_of r n) = None \<or>
                (\<exists>pre'. pre = pre' @ [Fs (Unlink (current_link_of r n))]))
           \<and> nodes w' = fs_final (nodes w)
                (pre @ [Fs (SymlinkTo (current_link_of r n) (script_file_of e r n (script_hash c)))])
           \<and> nodes w' (current_link_of r n) = Some (Symlink (script_file_of e r n (script_hash c)))
           \<and> p = current_link_of r n"
proof -
  let ?cur = "current_link_of r n" and ?f = "script_file_of e r n (script_hash c)"
  from save_check_script_Inr [OF assms] obtain w1 w2 where
        s1: "fs_do e (Mkdir (script_dir_of r n)) w = (Inr (), w1)"
    and s2: "write_script_if_new e ?f c w1 = (Inr (), w2)"
    and s3: "update_current_link e ?cur ?f w2 = (Inr (), w')"
    and p: "p = ?cur"
    by blast
  from s1 have r1: "reaches w [Fs (Mkdir (script_dir_of r n))] w1"
    by (rule fs_do_reaches_Inr)
  from s2 obtain evs where r2: "reaches w1 evs w2"
    by (blast dest: write_script_if_new_reaches)
  from update_current_link_Inr [OF s3] obtain pre3 where
        r3: "reaches w2 (pre3 @ [Fs (SymlinkTo ?cur ?f)]) w'"
    and a3: "fs_final (nodes w2) pre3 ?cur = None"
    and p3: "pre3 = (if nodes w2 ?cur = None then [] else [Fs (Unlink ?cur)])"
    and n3: "nodes w' = (nodes w2)(?cur \<mapsto> Symlink ?f)"
    by blast
  from r1 r2 have r12: "reaches w ([Fs (Mkdir (script_dir_of r n))] @ evs) w2"
    by (rule reaches_trans)
  let ?pre = "([Fs (Mkdir (script_dir_of r n))] @ evs) @ pre3"
  from r12 r3 have r: "reaches w (?pre @ [Fs (SymlinkTo ?cur ?f)]) w'"
    using reaches_trans by fastforce
  from r12 a3 have absent: "fs_final (nodes w) ?pre ?cur = None"
    using fs_final_append [of "nodes w" "[Fs (Mkdir (script_dir_of r n))] @ evs" pre3]
    by (simp add: reaches_def)
  have unl: "nodes w ?cur = None \<or> (\<exists>pre'. ?pre = pre' @ [Fs (Unlink ?cur)])"
  proof (cases "nodes w ?cur = None")
    case False
    then have "nodes w1 ?cur \<noteq> None"
      using fs_do_keeps [OF s1] by simp
    with s2 have "nodes w2 ?cur \<noteq> None" by (rule write_script_if_new_keeps)
    with p3 show ?thesis by simp
  qed simp
  from r have ev: "events w' = events w @ ?pre @ [Fs (SymlinkTo ?cur ?f)]"
    and nd: "nodes w' = fs_final (nodes w) (?pre @ [Fs (SymlinkTo ?cur ?f)])"
    by (simp_all add: reaches_def)
  from n3 have lk: "nodes w' ?cur = Some (Symlink ?f)" by simp
  from ev absent unl nd lk p show ?thesis by blast
qed

lemma save_A2_returns:
  "fst (save_check_script demo_env demo_runner check_A2 world_A1) = Inr ''/c/A/current.sh''"
  by code_simp

lemma pair_fst_snd: "fst x = a \<Longrightarrow> x = (a, snd x)"
  by (cases x) simp

theorem save_check_script_pointer_update_witness:
  "save_check_script demo_env demo_runner check_A2 world_A1 =
     (Inr ''/c/A/current.sh'', snd (save_check_script demo_env demo_runner check_A2 world_A1))
   \<and> name check_A2 = PStr ''A''
   \<and> nodes world_A1 ''/c/A/current.sh'' = Some (Symlink ''/c/A/A_h1.sh'')
   \<and> (\<exists>pre. events (snd (save_check_script demo_env demo_runner check_A2 world_A1)) =
               pre @ [Fs (Unlink ''/c/A/current.sh''),
                      Fs (SymlinkTo ''/c/A/current.sh'' ''/c/A/A_h2.sh'')]
          \<and> fs_final (nodes world_A1) (pre @ [Fs (Unlink ''/c/A/current.sh'')]) ''/c/A/current.sh'' = None)
   \<and> nodes (snd (save_check_script demo_env demo_runner check_A2 world_A1)) ''/c/A/current.sh''
        = Some (Symlink ''/c/A/A_h2.sh'')"
proof -
  let ?w' = "snd (save_check_script demo_env demo_runner check_A2 world_A1)"
  have h1: "save_check_script demo_env demo_runner check_A2 world_A1 = (Inr ''/c/A/current.sh'', ?w')"
    using save_A2_returns by (rule pair_fst_snd)
  have h2: "name check_A2 = PStr ''A''"
    by (simp add: check_A2_def)
  have cur: "current_link_of demo_runner ''A'' = ''/c/A/current.sh''"
    by (simp add: current_link_of_def script_dir_of_def path_join_def demo_runner_def)
  have f: "script_file_of demo_env demo_runner ''A'' (script_hash check_A2) = ''/c/A/A_h2.sh''"
    by (simp add: script_file_of_def script_dir_of_def path_join_def py_format_def
                  demo_runner_def check_A2_def)
  have old: "nodes world_A1 ''/c/A/current.sh'' = Some (Symlink ''/c/A/A_h1.sh'')"
    by (simp add: world_A1_def)
  have ev0: "events world_A1 = []"
    by (simp add: world_A1_def)
  from save_check_script_pointer_update [OF h1 h2] obtain pre where
        a: "events ?w' = events world_A1 @ pre @ [Fs (SymlinkTo ''/c/A/current.sh'' ''/c/A/A_h2.sh'')]"
    and b: "fs_final (nodes world_A1) pre ''/c/A/current.sh'' = None"
    and c: "nodes world_A1 ''/c/A/current.sh'' = None \<or>
              (\<exists>pre'. pre = pre' @ [Fs (Unlink ''/c/A/current.sh'')])"
    and d: "nodes ?w' ''/c/A/current.sh'' = Some (Symlink ''/c/A/A_h2.sh'')"
    unfolding cur f by blast
  from c old obtain pre' where pre: "pre = pre' @ [Fs (Unlink ''/c/A/current.sh'')]"
    by auto
  from a b pre ev0 have
    "events ?w' = pre' @ [Fs (Unlink ''/c/A/current.sh''),
                           Fs (SymlinkTo ''/c/A/current.sh'' ''/c/A/A_h2.sh'')]
     \<and> fs_final (nodes world_A1) (pre' @ [Fs (Unlink ''/c/A/current.sh'')]) ''/c/A/current.sh'' = None"
    by simp
  with h1 h2 old d show ?thesis by blast
qed

text \<open>
  Claim C1 as the specification states it fails: with version \<open>h1\<close> of check \<open>A\<close>
  current and version \<open>h2\<close> fetched, the call runs \<open>mkdir\<close>, \<open>write_text\<close>, \<open>chmod\<close>,
  \<open>unlink\<close>, \<open>symlink_to\<close>, and in the fourth of the five states it goes through (after
  the \<open>unlink\<close>, before the \<open>symlink_to\<close>) the pointer that existed before does not exist.
\<close>

theorem pointer_update_atomic_counterexample:
  "nodes world_A1 ''/c/A/current.sh'' = Some (Symlink ''/c/A/A_h1.sh'')
   \<and> events (snd (save_check_script demo_env demo_runner check_A2 world_A1)) =
       [Fs (Mkdir ''/c/A''), Fs (WriteText ''/c/A/A_h2.sh'' ''echo up 2''),
        Fs (Chmod ''/c/A/A_h2.sh''), Fs (Unlink ''/c/A/current.sh''),
        Fs (SymlinkTo ''/c/A/current.sh'' ''/c/A/A_h2.sh'')]
   \<and> length (fs_states (nodes world_A1)
        (events (snd (save_check_script demo_env demo_runner check_A2 world_A1)))) = 5
   \<and> (fs_states (nodes world_A1)
        (events (snd (save_check_script demo_env demo_runner check_A2 world_A1))) ! 3)
        ''/c/A/current.sh'' = None"
  by code_simp

subsection \<open>Resolution under an update of the pointer\<close>

lemma resolve_reach: "resolve k ns x = Some q \<Longrightarrow> (hop ns)\<^sup>*\<^sup>* x q"
proof (induction k arbitrary: x)
  case 0
  then show ?case by (auto split: option.splits node.splits)
next
  case (Suc k)
  show ?case
  proof (cases "\<exists>t. ns x = Some (Symlink t)")
    case True
    then obtain t where t: "ns x = Some (Symlink t)" by blast
    with Suc.prems have "resolve k ns t = Some q" by simp
    then have "(hop ns)\<^sup>*\<^sup>* t q" by (rule Suc.IH)
    moreover from t have "hop ns x t" by (simp add: hop_def)
    ultimately show ?thesis by (rule converse_rtranclp_into_rtranclp [rotated])
  next
    case False
    with Suc.prems have "q = x" by (auto split: option.splits node.splits)
    then show ?thesis by simp
  qed
qed

lemma resolve_upd_unreached:
  "\<not> (hop ns)\<^sup>*\<^sup>* x c \<Longrightarrow> resolve k (ns(c := v)) x = resolve k ns x"
proof (induction k arbitrary: x)
  case 0
  then have "x \<noteq> c" by auto
  then show ?case by simp
next
  case (Suc k)
  then have xc: "x \<noteq> c" by auto
  show ?case
  proof (cases "\<exists>t. ns x = Some (Symlink t)")
    case True
    then obtain t where t: "ns x = Some (Symlink t)" by blast
    then have "hop ns x t" by (simp add: hop_def)
    with Suc.prems have "\<not> (hop ns)\<^sup>*\<^sup>* t c"
      by (blast intro: converse_rtranclp_into_rtranclp)
    then have ih: "resolve k (ns(c := v)) t = resolve k ns t" by (rule Suc.IH)
    from t xc have lk: "(ns(c := v)) x = Some (Symlink t)" by simp
    have "resolve (Suc k) (ns(c := v)) x = resolve k (ns(c := v)) t"
      by (simp only: resolve.simps lk option.case node.case)
    also have "\<dots> = resolve (Suc k) ns x"
      by (simp only: resolve.simps t ih option.case node.case)
    finally show ?thesis .
  next
    case False
    with xc show ?thesis by (auto split: option.splits node.splits)
  qed
qed

lemma resolve_cycle:
  "(\<forall>x\<in>S. \<exists>t\<in>S. ns x = Some (Symlink t)) \<Longrightarrow> x \<in> S \<Longrightarrow> resolve k ns x = None"
proof (induction k arbitrary: x)
  case 0
  then show ?case by fastforce
next
  case (Suc k)
  from Suc.prems obtain t where "t \<in> S" and "ns x = Some (Symlink t)" by blast
  with Suc.IH [OF Suc.prems(1)] show ?case by simp
qed

lemma resolve_loop_after_link:
  assumes "(hop ns)\<^sup>*\<^sup>* f c"
  shows "resolve k (ns(c \<mapsto> Symlink f)) f = None"
proof -
  let ?S = "{x. (hop ns)\<^sup>*\<^sup>* f x \<and> (hop ns)\<^sup>*\<^sup>* x c}"
  let ?ns' = "ns(c \<mapsto> Symlink f)"
  have closed: "\<forall>x\<in>?S. \<exists>t\<in>?S. ?ns' x = Some (Symlink t)"
  proof
    fix x assume x: "x \<in> ?S"
    show "\<exists>t\<in>?S. ?ns' x = Some (Symlink t)"
    proof (cases "x = c")
      case True
      with assms show ?thesis by auto
    next
      case False
      from x have "(hop ns)\<^sup>*\<^sup>* x c" by simp
      with False obtain t where h: "hop ns x t" and tc: "(hop ns)\<^sup>*\<^sup>* t c"
        by (auto elim: converse_rtranclpE)
      from x h have "(hop ns)\<^sup>*\<^sup>* f t" by auto
      with tc have "t \<in> ?S" by simp
      moreover from h False have "?ns' x = Some (Symlink t)" by (simp add: hop_def)
      ultimately show ?thesis by blast
    qed
  qed
  from assms have "f \<in> ?S" by simp
  with closed show ?thesis by (rule resolve_cycle)
qed

lemma path_exists_after_link:
  assumes "path_exists ns f"
  shows "path_exists (ns(c \<mapsto> Symlink f)) f \<or> resolve 40 (ns(c \<mapsto> Symlink f)) f = None"
proof (cases "(hop ns)\<^sup>*\<^sup>* f c")
  case True
  then show ?thesis by (simp add: resolve_loop_after_link)
next
  case False
  from assms obtain q where q: "resolve 40 ns f = Some q" and nq: "ns q \<noteq> None"
    by (auto simp: path_exists_def split: option.splits)
  from q have "(hop ns)\<^sup>*\<^sup>* f q" by (rule resolve_reach)
  with False have "q \<noteq> c" by auto
  moreover from False have "resolve 40 (ns(c \<mapsto> Symlink f)) f = resolve 40 ns f"
    by (rule resolve_upd_unreached)
  ultimately have "path_exists (ns(c \<mapsto> Symlink f)) f"
    using q nq by (simp add: path_exists_def)
  then show ?thesis ..
qed

lemma resolve_upd_plain:
  "\<not> is_symlink ns q \<Longrightarrow> (\<forall>t. v \<noteq> Symlink t) \<Longrightarrow> resolve k (ns(q \<mapsto> v)) x = resolve k ns x"
proof (induction k arbitrary: x)
  case 0
  then show ?case
    by (cases v) (auto simp: is_symlink_def split: option.splits node.splits)
next
  case (Suc k)
  show ?case
  proof (cases "x = q")
    case True
    with Suc.prems show ?thesis
      by (cases v) (auto simp: is_symlink_def split: option.splits node.splits)
  next
    case False
    with Suc show ?thesis by (auto split: option.splits node.splits)
  qed
qed

lemma resolve_result_plain: "resolve k ns x = Some q \<Longrightarrow> \<not> is_symlink ns q"
  by (induction k arbitrary: x) (auto simp: is_symlink_def split: option.splits node.splits)

lemma chmod_exists:
  assumes "fs_apply (Chmod f) ns = Inr ns'"
  shows "path_exists ns' f"
proof -
  from assms obtain q where q: "resolve 40 ns f = Some q" and nq: "ns q \<noteq> None"
    and ns': "ns' = (case ns q of Some (File c x) \<Rightarrow> ns(q \<mapsto> File c True) | _ \<Rightarrow> ns)"
    by (auto split: option.splits node.splits)
  from q have plain: "\<not> is_symlink ns q" by (rule resolve_result_plain)
  show ?thesis
  proof (cases "\<exists>c x. ns q = Some (File c x)")
    case True
    then obtain c x where fl: "ns q = Some (File c x)" by blast
    with ns' have eq: "ns' = ns(q \<mapsto> File c True)" by simp
    have "resolve 40 ns' f = resolve 40 ns f"
      unfolding eq using plain by (rule resolve_upd_plain) simp
    with q eq show ?thesis by (simp add: path_exists_def)
  next
    case False
    with ns' nq have "ns' = ns" by (auto split: option.splits node.splits)
    with q nq show ?thesis by (simp add: path_exists_def)
  qed
qed

lemma write_script_if_new_exists:
  assumes "write_script_if_new e f c w = (Inr u, w')"
  shows "path_exists (nodes w') f"
proof -
  from write_script_if_new_Inr [OF assms] show ?thesis
  proof
    assume "path_exists (nodes w) f \<and> w' = w"
    then show ?thesis by simp
  next
    assume "\<not> path_exists (nodes w) f \<and>
          (\<exists>body w1. script_content c = PStr body \<and>
             fs_do e (WriteText f body) w = (Inr (), w1) \<and>
             fs_do e (Chmod f) w1 = (Inr (), w'))"
    then obtain w1 where "fs_do e (Chmod f) w1 = (Inr (), w')" by blast
    then have "fs_apply (Chmod f) (nodes w1) = Inr (nodes w')"
      by (auto simp: fs_do_Inr)
    then show ?thesis by (rule chmod_exists)
  qed
qed

lemma write_script_if_new_again:
  assumes ex: "path_exists ns f" and nd: "nodes w = ns(c \<mapsto> Symlink f)"
    and run: "write_script_if_new e f chk w = (Inr u, w')"
  shows "w' = w \<and> path_exists (nodes w) f"
proof -
  from write_script_if_new_Inr [OF run] show ?thesis
  proof
    assume "path_exists (nodes w) f \<and> w' = w"
    then show ?thesis by simp
  next
    assume a: "\<not> path_exists (nodes w) f \<and>
          (\<exists>body w1. script_content chk = PStr body \<and>
             fs_do e (WriteText f body) w = (Inr (), w1) \<and>
             fs_do e (Chmod f) w1 = (Inr (), w'))"
    then obtain body w1 where "fs_do e (WriteText f body) w = (Inr (), w1)" by blast
    then have "resolve 40 (nodes w) f \<noteq> None"
      by (auto simp: fs_do_Inr split: option.splits)
    moreover from a path_exists_after_link [OF ex, of c] nd
    have "resolve 40 (nodes w) f = None" by auto
    ultimately show ?thesis by simp
  qed
qed

subsection \<open>Saving twice\<close>

text \<open>
  Claim C7. When \<open>_save_check_script\<close> has returned for a check and is called again for
  the same check (same name, hash and body) and returns again, the second call leaves the
  file system as it found it: it runs \<open>mkdir\<close>, \<open>unlink\<close> and \<open>symlink_to\<close> and nothing
  else, so the body is not written a second time (the existence test comes first); the
  hash-named file exists, and the pointer refers to it as it did after the first call.
\<close>

theorem save_check_script_twice:
  assumes first: "save_check_script e r c w = (Inr p1, w1)"
    and second: "save_check_script e r c w1 = (Inr p2, w2)"
    and n: "name c = PStr n"
  shows "nodes w2 = nodes w1
       \<and> p2 = p1
       \<and> events w2 = events w1 @
           [Fs (Mkdir (script_dir_of r n)),
            Fs (Unlink (current_link_of r n)),
            Fs (SymlinkTo (current_link_of r n) (script_file_of e r n (script_hash c)))]
       \<and> path_exists (nodes w2) (script_file_of e r n (script_hash c))
       \<and> nodes w1 (current_link_of r n) = Some (Symlink (script_file_of e r n (script_hash c)))
       \<and> nodes w2 (current_link_of r n) = Some (Symlink (script_file_of e r n (script_hash c)))"
proof -
  let ?dir = "script_dir_of r n" and ?cur = "current_link_of r n"
    and ?f = "script_file_of e r n (script_hash c)"
  from save_check_script_Inr [OF first n] obtain wa wb where
        a1: "fs_do e (Mkdir ?dir) w = (Inr (), wa)"
    and b1: "write_script_if_new e ?f c wa = (Inr (), wb)"
    and c1: "update_current_link e ?cur ?f wb = (Inr (), w1)"
    and p1: "p1 = ?cur"
    by blast
  from save_check_script_Inr [OF second n] obtain wc wd where
        a2: "fs_do e (Mkdir ?dir) w1 = (Inr (), wc)"
    and b2: "write_script_if_new e ?f c wc = (Inr (), wd)"
    and c2: "update_current_link e ?cur ?f wd = (Inr (), w2)"
    and p2: "p2 = ?cur"
    by blast
  from a1 have "nodes wa ?dir \<noteq> None"
    by (auto simp: fs_do_Inr split: option.splits if_splits)
  with b1 have dirb: "nodes wb ?dir \<noteq> None" by (rule write_script_if_new_keeps)
  from b1 have exb: "path_exists (nodes wb) ?f" by (rule write_script_if_new_exists)
  from update_current_link_Inr [OF c1]
  have n1: "nodes w1 = (nodes wb)(?cur \<mapsto> Symlink ?f)" by blast
  with dirb have dir1: "nodes w1 ?dir \<noteq> None"
    using current_link_neq_dir [of r n] by auto
  from a2 dir1 have nc: "nodes wc = nodes w1" and ec: "events wc = events w1 @ [Fs (Mkdir ?dir)]"
    by (auto simp: fs_do_Inr split: option.splits if_splits)
  from nc n1 have "nodes wc = (nodes wb)(?cur \<mapsto> Symlink ?f)" by simp
  with exb have d: "wd = wc \<and> path_exists (nodes wc) ?f"
    using b2 by (rule write_script_if_new_again)
  from update_current_link_Inr [OF c2] obtain pre where
        r2: "reaches wd (pre @ [Fs (SymlinkTo ?cur ?f)]) w2"
    and pre: "pre = (if nodes wd ?cur = None then [] else [Fs (Unlink ?cur)])"
    and n2: "nodes w2 = (nodes wd)(?cur \<mapsto> Symlink ?f)"
    by blast
  from n1 have l1: "nodes w1 ?cur = Some (Symlink ?f)" by simp
  from d nc l1 have "nodes wd ?cur = Some (Symlink ?f)" by simp
  with pre n2 have pre': "pre = [Fs (Unlink ?cur)]" and same: "nodes w2 = nodes wd"
    by auto
  from same d nc have nodes: "nodes w2 = nodes w1" by simp
  from r2 pre' d ec have evs: "events w2 = events w1 @
      [Fs (Mkdir ?dir), Fs (Unlink ?cur), Fs (SymlinkTo ?cur ?f)]"
    by (simp add: reaches_def)
  from d nc nodes have "path_exists (nodes w2) ?f" by simp
  with nodes p1 p2 evs l1 show ?thesis by simp
qed

lemma save_A1_returns:
  "fst (save_check_script demo_env demo_runner check_A1 empty_world) = Inr ''/c/A/current.sh''"
  by code_simp

lemma save_A1_again_returns:
  "fst (save_check_script demo_env demo_runner check_A1
          (snd (save_check_script demo_env demo_runner check_A1 empty_world)))
     = Inr ''/c/A/current.sh''"
  by code_simp

theorem save_check_script_twice_witness:
  "save_check_script demo_env demo_runner check_A1 empty_world =
     (Inr ''/c/A/current.sh'', snd (save_check_script demo_env demo_runner check_A1 empty_world))
   \<and> events (snd (save_check_script demo_env demo_runner check_A1 empty_world)) =
       [Fs (Mkdir ''/c/A''), Fs (WriteText ''/c/A/A_h1.sh'' ''echo up 1''),
        Fs (Chmod ''/c/A/A_h1.sh''), Fs (SymlinkTo ''/c/A/current.sh'' ''/c/A/A_h1.sh'')]
   \<and> nodes (snd (save_check_script demo_env demo_runner check_A1
        (snd (save_check_script demo_env demo_runner check_A1 empty_world))))
       = nodes (snd (save_check_script demo_env demo_runner check_A1 empty_world))
   \<and> events (snd (save_check_script demo_env demo_runner check_A1
        (snd (save_check_script demo_env demo_runner check_A1 empty_world))))
       = events (snd (save_check_script demo_env demo_runner check_A1 empty_world)) @
         [Fs (Mkdir ''/c/A''), Fs (Unlink ''/c/A/current.sh''),
          Fs (SymlinkTo ''/c/A/current.sh'' ''/c/A/A_h1.sh'')]
   \<and> nodes (snd (save_check_script demo_env demo_runner check_A1
        (snd (save_check_script demo_env demo_runner check_A1 empty_world)))) ''/c/A/current.sh''
       = Some (Symlink ''/c/A/A_h1.sh'')"
proof -
  let ?w1 = "snd (save_check_script demo_env demo_runner check_A1 empty_world)"
  let ?w2 = "snd (save_check_script demo_env demo_runner check_A1 ?w1)"
  have h1: "save_check_script demo_env demo_runner check_A1 empty_world = (Inr ''/c/A/current.sh'', ?w1)"
    using save_A1_returns by (rule pair_fst_snd)
  have h2: "save_check_script demo_env demo_runner check_A1 ?w1 = (Inr ''/c/A/current.sh'', ?w2)"
    using save_A1_again_returns by (rule pair_fst_snd)
  have h3: "name check_A1 = PStr ''A''"
    by (simp add: check_A1_def)
  have ev1: "events ?w1 =
       [Fs (Mkdir ''/c/A''), Fs (WriteText ''/c/A/A_h1.sh'' ''echo up 1''),
        Fs (Chmod ''/c/A/A_h1.sh''), Fs (SymlinkTo ''/c/A/current.sh'' ''/c/A/A_h1.sh'')]"
    by code_simp
  have dir: "script_dir_of demo_runner ''A'' = ''/c/A''"
    by (simp add: script_dir_of_def path_join_def demo_runner_def)
  have cur: "current_link_of demo_runner ''A'' = ''/c/A/current.sh''"
    by (simp add: current_link_of_def script_dir_of_def path_join_def demo_runner_def)
  have f: "script_file_of demo_env demo_runner ''A'' (script_hash check_A1) = ''/c/A/A_h1.sh''"
    by (simp add: script_file_of_def script_dir_of_def path_join_def py_format_def
                  demo_runner_def check_A1_def)
  from save_check_script_twice [OF h1 h2 h3] h1 ev1 show ?thesis
    unfolding dir cur f by simp
qed

subsection \<open>Running one check\<close>


















subsection \<open>Fetching\<close>

lemma make_check_PDict:
  "make_check (PDict kvs) = Some
     \<lparr>name = (case map_of kvs ''name'' of None \<Rightarrow> PStr [] | Some v \<Rightarrow> v),
      script_content = (case map_of kvs ''script_content'' of None \<Rightarrow> PStr [] | Some v \<Rightarrow> v),
      script_hash = (case map_of kvs ''script_hash'' of None \<Rightarrow> PStr [] | Some v \<Rightarrow> v),
      config = (case map_of kvs ''config'' of
                  None \<Rightarrow> PDict []
                | Some v \<Rightarrow> if truthy v then v else PDict [])\<rparr>"
  by (simp add: make_check_def split: option.splits)

lemma collect_checks_all:
  "(\<forall>item\<in>set items. \<exists>kvs. item = PDict kvs) \<Longrightarrow>
     collect_checks items acc = Some (acc @ map (\<lambda>item. the (make_check item)) items)"
proof (induction items arbitrary: acc)
  case Nil
  then show ?case by simp
next
  case (Cons item items)
  from Cons.prems obtain kvs where "item = PDict kvs" by auto
  then obtain c where c: "make_check item = Some c" by (simp add: make_check_PDict)
  from Cons.prems have "\<forall>item\<in>set items. \<exists>kvs. item = PDict kvs" by simp
  then have "collect_checks items (acc @ [c]) = Some ((acc @ [c]) @ map (\<lambda>item. the (make_check item)) items)"
    by (rule Cons.IH)
  with c show ?case by simp
qed


text \<open>
  Claim C9. When the server's answer parses to a list of objects, the fetcher returns one
  check per object, in order, whatever fields the object has or lacks: a field that is
  present is taken as it is (a \<open>config\<close> that is present but false in Python's sense, such
  as \<open>null\<close>, becomes the empty mapping as well), a missing \<open>name\<close>, \<open>script_content\<close>
  or \<open>script_hash\<close> becomes the empty string, and a missing \<open>config\<close> becomes the empty
  mapping. No record is rejected for being empty.
\<close>

theorem fetch_effective_checks_defaults:
  assumes "http_json e (length (events w)) (fetch_url r) = Inr (PList items)"
    and "\<forall>item\<in>set items. \<exists>kvs. item = PDict kvs"
  shows "\<exists>checks. fst (fetch_effective_checks e r w) = Some checks
           \<and> length checks = length items
           \<and> (\<forall>i kvs. i < length items \<and> items ! i = PDict kvs \<longrightarrow>
                name (checks ! i) = (case map_of kvs ''name'' of None \<Rightarrow> PStr [] | Some v \<Rightarrow> v)
              \<and> script_content (checks ! i) =
                  (case map_of kvs ''script_content'' of None \<Rightarrow> PStr [] | Some v \<Rightarrow> v)
              \<and> script_hash (checks ! i) =
                  (case map_of kvs ''script_hash'' of None \<Rightarrow> PStr [] | Some v \<Rightarrow> v)
              \<and> config (checks ! i) =
                  (case map_of kvs ''config'' of
                     None \<Rightarrow> PDict []
                   | Some v \<Rightarrow> if truthy v then v else PDict []))"
proof -
  let ?checks = "map (\<lambda>item. the (make_check item)) items"
  from assms(2) have "collect_checks items [] = Some ([] @ ?checks)"
    by (rule collect_checks_all)
  with assms(1) have "fst (fetch_effective_checks e r w) = Some ?checks"
    by (simp add: fetch_effective_checks_def Let_def)
  moreover have "length ?checks = length items" by simp
  moreover have "\<forall>i kvs. i < length items \<and> items ! i = PDict kvs \<longrightarrow>
                name (?checks ! i) = (case map_of kvs ''name'' of None \<Rightarrow> PStr [] | Some v \<Rightarrow> v)
              \<and> script_content (?checks ! i) =
                  (case map_of kvs ''script_content'' of None \<Rightarrow> PStr [] | Some v \<Rightarrow> v)
              \<and> script_hash (?checks ! i) =
                  (case map_of kvs ''script_hash'' of None \<Rightarrow> PStr [] | Some v \<Rightarrow> v)
              \<and> config (?checks ! i) =
                  (case map_of kvs ''config'' of
                     None \<Rightarrow> PDict []
                   | Some v \<Rightarrow> if truthy v then v else PDict [])"
    by (simp add: make_check_PDict)
  ultimately show ?thesis by blast
qed

theorem fetch_effective_checks_defaults_witness:
  "http_json sparse_env (length (events empty_world)) (fetch_url demo_runner) =
     Inr (PList [PDict [],
                 PDict [(''name'', PStr ''x''), (''script_hash'', PStr ''h''), (''config'', PNone)]])
   \<and> (\<exists>checks. fst (fetch_effective_checks sparse_env demo_runner empty_world) = Some checks
        \<and> length checks = 2
        \<and> checks ! 0 = \<lparr>name = PStr [], script_content = PStr [], script_hash = PStr [],
                          config = PDict []\<rparr>
        \<and> checks ! 1 = \<lparr>name = PStr ''x'', script_content = PStr [], script_hash = PStr ''h'',
                          config = PDict []\<rparr>)"
proof -
  let ?items = "[PDict [],
                 PDict [(''name'', PStr ''x''), (''script_hash'', PStr ''h''), (''config'', PNone)]]"
  have h1: "http_json sparse_env (length (events empty_world)) (fetch_url demo_runner) = Inr (PList ?items)"
    by (simp add: sparse_env_def sparse_payload_def)
  have h2: "\<forall>item\<in>set ?items. \<exists>kvs. item = PDict kvs"
    by simp
  from fetch_effective_checks_defaults [OF h1 h2] obtain checks where
        a: "fst (fetch_effective_checks sparse_env demo_runner empty_world) = Some checks"
    and b: "length checks = length ?items"
    and c: "\<forall>i kvs. i < length ?items \<and> ?items ! i = PDict kvs \<longrightarrow>
                name (checks ! i) = (case map_of kvs ''name'' of None \<Rightarrow> PStr [] | Some v \<Rightarrow> v)
              \<and> script_content (checks ! i) =
                  (case map_of kvs ''script_content'' of None \<Rightarrow> PStr [] | Some v \<Rightarrow> v)
              \<and> script_hash (checks ! i) =
                  (case map_of kvs ''script_hash'' of None \<Rightarrow> PStr [] | Some v \<Rightarrow> v)
              \<and> config (checks ! i) =
                  (case map_of kvs ''config'' of
                     None \<Rightarrow> PDict []
                   | Some v \<Rightarrow> if truthy v then v else PDict [])"
    by blast
  from c [rule_format, of 0 "[]"] have c0:
    "checks ! 0 = \<lparr>name = PStr [], script_content = PStr [], script_hash = PStr [], config = PDict []\<rparr>"
    by simp
  from c [rule_format, of 1 "[(''name'', PStr ''x''), (''script_hash'', PStr ''h''), (''config'', PNone)]"]
  have c1:
    "checks ! 1 = \<lparr>name = PStr ''x'', script_content = PStr [], script_hash = PStr ''h'',
                     config = PDict []\<rparr>"
    by simp
  from h1 a b c0 c1 show ?thesis by auto
qed

subsection \<open>The status file\<close>





subsection \<open>Runs that fetch nothing\<close>








subsection \<open>Runs that fetch checks\<close>







subsection \<open>The run of the three checks\<close>





subsection \<open>A disk write error while a script is saved\<close>

text \<open>
  Claim C2 does not hold for the code. The server answers with the checks \<open>A\<close>, \<open>B\<close> and
  \<open>C\<close>, and the disk is full when the script of \<open>A\<close> is written: \<open>write_text\<close> raises
  \<open>OSError\<close> inside \<open>_save_check_script\<close>, which \<open>run\<close> calls outside any \<open>try\<close>. The
  exception leaves \<open>run\<close>: after the \<open>mkdir\<close> and the failed write nothing more is done,
  no child is started for \<open>A\<close>, \<open>B\<close> or \<open>C\<close>, no error metric and no status file is written,
  and the process ends with status 1.
\<close>

theorem persist_failure_aborts_run:
  "fst (fetch_effective_checks nospace_env demo_runner (snd (now nospace_env empty_world)))
     = Some demo_checks
   \<and> fst (run nospace_env demo_runner empty_world) = Inl (OSError ''No space left on device'')
   \<and> events (snd (run nospace_env demo_runner empty_world)) =
       [ReadClock, HttpGet ''http://cs/api/v1/checks/target/hostname/node1'',
        Fs (Mkdir ''/c/A''), FsFailed (WriteText ''/c/A/A_h1.sh'' ''echo up 1'')]
   \<and> exit_status (fst (run nospace_env demo_runner empty_world)) = 1"
  by code_simp

subsection \<open>What a published file holds\<close>

text \<open>When the temporary path is no link, a write and rename that go through leave the
  text at the final path.\<close>

lemma publish_content:
  assumes "publish e tmp final s w = (Inr u, w')"
    and "\<not> is_symlink (nodes w) tmp" and "tmp \<noteq> final"
  shows "\<exists>x. nodes w' final = Some (File s x)"
proof -
  from assms(1) obtain w1 where
        s1: "fs_do e (WriteText tmp s) w = (Inr (), w1)"
    and s2: "fs_do e (Rename tmp final) w1 = (Inr u, w')"
    by (auto simp: publish_def bind_io_Inr)
  from assms(2) have res: "resolve 40 (nodes w) tmp = Some tmp" by (rule resolve_plain)
  from s1 have "fs_apply (WriteText tmp s) (nodes w) = Inr (nodes w1)"
    by (auto simp: fs_do_Inr)
  with res have "\<exists>x. (nodes w)(tmp \<mapsto> File s x) = nodes w1"
    by (auto split: option.splits node.splits)
  then obtain x where "(nodes w)(tmp \<mapsto> File s x) = nodes w1" ..
  then have n1: "nodes w1 = (nodes w)(tmp \<mapsto> File s x)" by (rule sym)
  from s2 have "fs_apply (Rename tmp final) (nodes w1) = Inr (nodes w')"
    by (auto simp: fs_do_Inr)
  with n1 assms(3) have "(nodes w)(tmp := None, final \<mapsto> File s x) = nodes w'"
    by (auto split: if_splits)
  then have "nodes w' final = ((nodes w)(tmp := None, final \<mapsto> File s x)) final"
    by simp
  then have "nodes w' final = Some (File s x)" by simp
  then show ?thesis ..
qed

subsection \<open>Numbers and lines of the metric texts\<close>

lemma digit_char_mem: "d < 10 \<Longrightarrow> ''0123456789'' ! d \<in> set ''0123456789''"
  by (rule nth_mem) simp

lemma digit_val_digit: "d < 10 \<Longrightarrow> digit_val (''0123456789'' ! d) = Some d"
proof -
  assume "d < 10"
  then have "d = 0 \<or> d = 1 \<or> d = 2 \<or> d = 3 \<or> d = 4 \<or> d = 5 \<or> d = 6
    \<or> d = 7 \<or> d = 8 \<or> d = 9"
    by arith
  then show ?thesis
    by (elim disjE) (simp_all add: digit_val_def)
qed

lemma str_nat_digits: "set (str_nat n) \<subseteq> set ''0123456789''"
proof (induction n rule: str_nat.induct)
  case (1 n)
  show ?case
  proof (cases "n < 10")
    case True
    then have "str_nat n = [''0123456789'' ! n]" by (simp add: str_nat.simps)
    with digit_char_mem [OF True] show ?thesis by simp
  next
    case False
    then have eq: "str_nat n = str_nat (n div 10) @ [''0123456789'' ! (n mod 10)]"
      by (simp add: str_nat.simps)
    have "n mod 10 < 10" by simp
    from digit_char_mem [OF this] 1 [OF False] show ?thesis
      unfolding eq by simp
  qed
qed

lemma str_nat_nonempty: "str_nat n \<noteq> []"
  by (subst str_nat.simps) simp

lemma dec_rev_str_nat: "dec_rev (rev (str_nat n)) = Some n"
proof (induction n rule: str_nat.induct)
  case (1 n)
  show ?case
  proof (cases "n < 10")
    case True
    then have "str_nat n = [''0123456789'' ! n]" by (simp add: str_nat.simps)
    with digit_val_digit [OF True] show ?thesis by simp
  next
    case False
    then have eq: "str_nat n = str_nat (n div 10) @ [''0123456789'' ! (n mod 10)]"
      by (simp add: str_nat.simps)
    have "n mod 10 < 10" by simp
    from digit_val_digit [OF this] 1 [OF False] show ?thesis
      unfolding eq by simp
  qed
qed

lemma parse_nat_str_nat: "parse_nat (str_nat n) = Some n"
  by (simp add: parse_nat_def str_nat_nonempty dec_rev_str_nat)

lemma str_nat_hd: "\<exists>c cs. str_nat n = c # cs \<and> c \<noteq> CHR ''-''"
proof -
  obtain c cs where eq: "str_nat n = c # cs"
    using str_nat_nonempty [of n] by (cases "str_nat n") auto
  with str_nat_digits [of n] have "c \<in> set ''0123456789''" by auto
  then have "c \<noteq> CHR ''-''" by auto
  with eq show ?thesis by blast
qed

text \<open>The decimal text of an integer reads back as the integer.\<close>

lemma parse_int_str_int: "parse_int (str_int i) = Some i"
proof (cases "i < 0")
  case True
  then show ?thesis
    by (simp add: str_int_def parse_int_def parse_nat_str_nat)
next
  case False
  obtain c cs where eq: "str_nat (nat i) = c # cs" and c: "c \<noteq> CHR ''-''"
    using str_nat_hd by blast
  from False have "parse_int (str_int i) = map_option int (parse_nat (str_nat (nat i)))"
    using eq c by (simp add: str_int_def parse_int_def)
  with False show ?thesis by (simp add: parse_nat_str_nat)
qed

lemma str_int_no_newline: "CHR 0x0A \<notin> set (str_int i)"
proof -
  have "CHR 0x0A \<notin> set (str_nat n)" for n
    using str_nat_digits [of n] by auto
  then show ?thesis by (simp add: str_int_def)
qed

lemma lines_of_nonempty: "lines_of s \<noteq> []"
  by (induction s) (auto split: list.splits)

lemma lines_of_line:
  "CHR 0x0A \<notin> set a \<Longrightarrow> lines_of (a @ CHR 0x0A # b) = a # lines_of b"
  by (induction a) auto

lemma lines_of_unlines:
  "(\<forall>l\<in>set ls. CHR 0x0A \<notin> set l) \<Longrightarrow> lines_of (unlines ls) = ls @ [[]]"
proof (induction ls)
  case Nil
  then show ?case by (simp add: unlines_def)
next
  case (Cons l ls)
  then have "lines_of (unlines ls) = ls @ [[]]" by simp
  moreover have "unlines (l # ls) = l @ CHR 0x0A # unlines ls"
    by (simp add: unlines_def)
  moreover from Cons.prems have "CHR 0x0A \<notin> set l" by simp
  ultimately show ?case by (simp add: lines_of_line)
qed

text \<open>The lines of the status file, as a reader cuts them.\<close>

lemma status_text_lines:
  "lines_of (status_text status_value timestamp duration checks_total checks_success checks_failed) =
     [''# HELP aami_check_fetch_status Check fetch status (1=success, 0=failed)'',
      ''# TYPE aami_check_fetch_status gauge'',
      ''aami_check_fetch_status '' @ str_int status_value,
      [],
      ''# HELP aami_check_fetch_timestamp_seconds Last check fetch timestamp'',
      ''# TYPE aami_check_fetch_timestamp_seconds gauge'',
      ''aami_check_fetch_timestamp_seconds '' @ str_int timestamp,
      [],
      ''# HELP aami_check_execution_duration_seconds Check execution duration'',
      ''# TYPE aami_check_execution_duration_seconds gauge'',
      ''aami_check_execution_duration_seconds '' @ str_int duration,
      [],
      ''# HELP aami_checks_total Total number of checks configured'',
      ''# TYPE aami_checks_total gauge'',
      ''aami_checks_total '' @ str_int checks_total,
      [],
      ''# HELP aami_checks_success Number of successful checks'',
      ''# TYPE aami_checks_success gauge'',
      ''aami_checks_success '' @ str_int checks_success,
      [],
      ''# HELP aami_checks_failed Number of failed checks'',
      ''# TYPE aami_checks_failed gauge'',
      ''aami_checks_failed '' @ str_int checks_failed,
      []]"
proof -
  let ?ls = "[''# HELP aami_check_fetch_status Check fetch status (1=success, 0=failed)'',
      ''# TYPE aami_check_fetch_status gauge'',
      ''aami_check_fetch_status '' @ str_int status_value,
      [],
      ''# HELP aami_check_fetch_timestamp_seconds Last check fetch timestamp'',
      ''# TYPE aami_check_fetch_timestamp_seconds gauge'',
      ''aami_check_fetch_timestamp_seconds '' @ str_int timestamp,
      [],
      ''# HELP aami_check_execution_duration_seconds Check execution duration'',
      ''# TYPE aami_check_execution_duration_seconds gauge'',
      ''aami_check_execution_duration_seconds '' @ str_int duration,
      [],
      ''# HELP aami_checks_total Total number of checks configured'',
      ''# TYPE aami_checks_total gauge'',
      ''aami_checks_total '' @ str_int checks_total,
      [],
      ''# HELP aami_checks_success Number of successful checks'',
      ''# TYPE aami_checks_success gauge'',
      ''aami_checks_success '' @ str_int checks_success,
      [],
      ''# HELP aami_checks_failed Number of failed checks'',
      ''# TYPE aami_checks_failed gauge'',
      ''aami_checks_failed '' @ str_int checks_failed]"
  have eq: "status_text status_value timestamp duration checks_total checks_success checks_failed
              = unlines ?ls"
    by (simp add: status_text_def unlines_def newline_def)
  have "\<forall>l\<in>set ?ls. CHR 0x0A \<notin> set l"
    by (simp add: str_int_no_newline)
  then have "lines_of (unlines ?ls) = ?ls @ [[]]"
    by (rule lines_of_unlines)
  with eq show ?thesis by simp
qed


lemma gauge_timestamp:
  "gauge (status_text sv ts d t s f) ''aami_check_fetch_timestamp_seconds'' = Some ts"
  by (simp add: gauge_def sample_value_def status_text_lines parse_int_str_int)





subsection \<open>The published summary\<close>












subsection \<open>The error metric\<close>





end
